theory Spec2Isabelle
  imports Main "HOL-Library.Sublist"
begin

section \<open>The character counter foundation (mdc-textfield/character-counter/foundation.ts)\<close>

text \<open>
  The foundation talks to the DOM through an adapter with two callbacks. A callback is a
  state transformer on whatever the adapter owns (\<open>'s\<close>); the foundation's method runs
  them in the order of the source. Lengths are the non-negative integer values of
  JavaScript numbers. On the integers below \<open>2^53\<close> (each of them a number, as every
  string length is) \<open>Math.min\<close> is the minimum and the template literal \<open>${n}\<close> is the
  plain decimal numeral; from \<open>10^21\<close> on the template literal switches to exponent
  notation, which \<open>number_to_string\<close> does not follow. What is proved about the string
  is proved for \<open>safe_length\<close> arguments.
\<close>

definition safe_length :: "nat \<Rightarrow> bool" where
  "safe_length n = (n < 2 ^ 53)"

record 's MDCTextFieldCharacterCounterAdapter =
  setContent :: "string \<Rightarrow> 's \<Rightarrow> 's"
  setCounterValue :: "nat \<Rightarrow> nat \<Rightarrow> 's \<Rightarrow> 's"

definition defaultAdapter :: "'s MDCTextFieldCharacterCounterAdapter" where
  "defaultAdapter = \<lparr> setContent = (\<lambda>_ s. s), setCounterValue = (\<lambda>_ _ s. s) \<rparr>"

definition digit_char :: "nat \<Rightarrow> char" where
  "digit_char d = char_of (48 + d)"

text \<open>\<open>Number::toString\<close> in radix 10 on a non-negative integer below \<open>10^21\<close>.\<close>

fun number_to_string :: "nat \<Rightarrow> string" where
  "number_to_string n =
     (if n < 10 then [digit_char n]
      else number_to_string (n div 10) @ [digit_char (n mod 10)])"

declare number_to_string.simps [simp del]

text \<open>
  \<open>setCounterValue(currentLength, maxLength)\<close>: the parameter \<open>currentLength\<close> is
  overwritten by the minimum, then both callbacks are called with it.
\<close>

definition foundation_setCounterValue ::
  "'s MDCTextFieldCharacterCounterAdapter \<Rightarrow> nat \<Rightarrow> nat \<Rightarrow> 's \<Rightarrow> 's" where
  "foundation_setCounterValue adapter currentLength maxLength s =
     (let currentLength = min currentLength maxLength;
          s = setContent adapter
                (number_to_string currentLength @ '' / '' @ number_to_string maxLength) s
      in setCounterValue adapter currentLength maxLength s)"

text \<open>
  An adapter that records what it is called with, in order: the observer used to state
  what each callback receives.
\<close>

datatype adapter_call = SetContent string | SetCounterValue nat nat

definition recording_adapter :: "adapter_call list MDCTextFieldCharacterCounterAdapter" where
  "recording_adapter =
     \<lparr> setContent = (\<lambda>c calls. calls @ [SetContent c]),
       setCounterValue = (\<lambda>c m calls. calls @ [SetCounterValue c m]) \<rparr>"

definition content_calls :: "adapter_call list \<Rightarrow> string list" where
  "content_calls calls = concat (map (\<lambda>c. case c of SetContent s \<Rightarrow> [s] | _ \<Rightarrow> []) calls)"

definition counter_calls :: "adapter_call list \<Rightarrow> (nat \<times> nat) list" where
  "counter_calls calls =
     concat (map (\<lambda>c. case c of SetCounterValue a b \<Rightarrow> [(a, b)] | _ \<Rightarrow> []) calls)"

text \<open>Reading a decimal numeral back: the value that a string of digits denotes.\<close>

definition digit_value :: "char \<Rightarrow> nat" where
  "digit_value c = of_char c - 48"

definition decimal_value :: "string \<Rightarrow> nat" where
  "decimal_value cs = foldl (\<lambda>acc c. 10 * acc + digit_value c) 0 cs"

definition is_digit :: "char \<Rightarrow> bool" where
  "is_digit c = (48 \<le> (of_char c :: nat) \<and> (of_char c :: nat) \<le> 57)"

section \<open>Sass values\<close>

text \<open>
  The style modules are dynamically typed, so their values are one datatype. A string is
  its text: Sass's \<open>==\<close> ignores whether a string is quoted. A map is its list of
  entries in insertion order. Numbers are kept as integers (no function here computes
  with them). \<open>SCall\<close> is the result of a plain CSS function call such as
  \<open>var(--x, teal)\<close>: the unquoted string that Sass builds from the name and the
  arguments written as CSS, kept as the name and the arguments.
\<close>

datatype sval =
    SNull
  | SBool bool
  | SNum int
  | SStr string
  | SList "sval list"
  | SMap "(sval \<times> sval) list"
  | SCall string "sval list"

text \<open>
  A failed compilation: the two \<open>@error\<close>s of the validator, the one of the
  \<open>declaration\<close> mixin, the one of \<open>configure\<close>, and the errors of the built-in
  functions applied to a value of the wrong type. The first three carry the value that
  the message interpolates. \<open>NotACssValue\<close> is Sass's "isn't a valid CSS value", raised
  when a value that cannot be written as CSS is an argument of a plain CSS function or
  is interpolated.
\<close>

datatype error =
    InvalidTokens "sval list"
  | MissingTokens "sval list"
  | InvalidCustomProperty sval
  | ContentRequired
  | NotAMap sval
  | NotAString sval
  | NotACssValue sval

text \<open>Everything but \<open>null\<close> and \<open>false\<close> counts as true in \<open>@if\<close>, \<open>and\<close>, \<open>not\<close>.\<close>

fun truthy :: "sval \<Rightarrow> bool" where
  "truthy SNull = False"
| "truthy (SBool b) = b"
| "truthy _ = True"

text \<open>
  Writing a value as CSS. A map cannot be written, nor can the empty list \<open>()\<close>. A list
  is written element by element, leaving out the blank ones (\<open>null\<close>, and lists of
  blank elements), so it can be written when its other elements can. \<open>null\<close> is written
  as nothing.
\<close>

fun is_blank :: "sval \<Rightarrow> bool" where
  "is_blank SNull = True"
| "is_blank (SList xs) = list_all is_blank xs"
| "is_blank _ = False"

fun css_value :: "sval \<Rightarrow> bool" where
  "css_value (SMap kvs) = False"
| "css_value (SList []) = False"
| "css_value (SList (x # xs)) = list_all (\<lambda>e. is_blank e \<or> css_value e) (x # xs)"
| "css_value _ = True"

text \<open>
  A call of a function that Sass does not know, such as \<open>var\<close>: each argument is
  written as CSS, in order, and the first that cannot be is the error.
\<close>

definition css_function_call :: "string \<Rightarrow> sval list \<Rightarrow> error + sval" where
  "css_function_call name args =
     (case find (\<lambda>a. \<not> css_value a) args of
        Some a \<Rightarrow> Inl (NotACssValue a)
      | None \<Rightarrow> Inr (SCall name args))"

definition map_lookup :: "(sval \<times> sval) list \<Rightarrow> sval \<Rightarrow> sval" where
  "map_lookup kvs k = (case map_of kvs k of None \<Rightarrow> SNull | Some v \<Rightarrow> v)"

text \<open>
  \<open>map.get\<close> returns \<open>null\<close> for a missing key. The empty list \<open>()\<close> is also the
  empty map; any other value that is not a map is an error.
\<close>

fun map_get :: "sval \<Rightarrow> sval \<Rightarrow> error + sval" where
  "map_get (SMap kvs) k = Inr (map_lookup kvs k)"
| "map_get (SList []) k = Inr SNull"
| "map_get v k = Inl (NotAMap v)"

fun map_keys :: "sval \<Rightarrow> error + sval list" where
  "map_keys (SMap kvs) = Inr (map fst kvs)"
| "map_keys (SList []) = Inr []"
| "map_keys v = Inl (NotAMap v)"

definition map_remove :: "(sval \<times> sval) list \<Rightarrow> sval \<Rightarrow> (sval \<times> sval) list" where
  "map_remove kvs k = filter (\<lambda>(k', _). k' \<noteq> k) kvs"

text \<open>Storing a key keeps its position when it is present and appends it when not.\<close>

fun map_set :: "(sval \<times> sval) list \<Rightarrow> sval \<Rightarrow> sval \<Rightarrow> (sval \<times> sval) list" where
  "map_set [] k v = [(k, v)]"
| "map_set ((k', v') # kvs) k v =
     (if k' = k then (k, v) # kvs else (k', v') # map_set kvs k v)"

definition map_merge :: "(sval \<times> sval) list \<Rightarrow> (sval \<times> sval) list \<Rightarrow> (sval \<times> sval) list" where
  "map_merge m1 m2 = foldl (\<lambda>m (k, v). map_set m k v) m1 m2"

text \<open>
  \<open>@each\<close> and the list functions read any value as a list: a map as the list of its
  entries (each a two-element list), a single value as the list of itself.
\<close>

fun as_list :: "sval \<Rightarrow> sval list" where
  "as_list (SList xs) = xs"
| "as_list (SMap kvs) = map (\<lambda>(k, v). SList [k, v]) kvs"
| "as_list v = [v]"

text \<open>\<open>@each $a, $b in ...\<close>: the variables an element is too short for are \<open>null\<close>.\<close>

definition destructure2 :: "sval \<Rightarrow> sval \<times> sval" where
  "destructure2 e =
     (case as_list e of
        [] \<Rightarrow> (SNull, SNull)
      | [a] \<Rightarrow> (a, SNull)
      | a # b # _ \<Rightarrow> (a, b))"

text \<open>\<open>list.index\<close>: the 1-based position of the first equal element, or \<open>null\<close>.\<close>

fun list_index_from :: "nat \<Rightarrow> sval list \<Rightarrow> sval \<Rightarrow> sval" where
  "list_index_from i [] v = SNull"
| "list_index_from i (x # xs) v =
     (if x = v then SNum (int i) else list_index_from (Suc i) xs v)"

definition list_index :: "sval list \<Rightarrow> sval \<Rightarrow> sval" where
  "list_index xs v = list_index_from 1 xs v"

text \<open>
  \<open>string.slice($s, $start, $end)\<close> for \<open>1 \<le> $start\<close>: the characters at the 1-based
  positions from \<open>$start\<close> to \<open>$end\<close>, both included.
\<close>

fun string_slice :: "sval \<Rightarrow> nat \<Rightarrow> nat \<Rightarrow> error + sval" where
  "string_slice (SStr s) start end = Inr (SStr (take (Suc end - start) (drop (start - 1) s)))"
| "string_slice v start end = Inl (NotAString v)"

section \<open>Custom properties (the style module with \<open>configure\<close>, \<open>create\<close>, \<open>declaration\<close>)\<close>

text \<open>The initial value of the module's global \<open>$_config\<close>.\<close>

definition initial_config :: "(sval \<times> sval) list" where
  "initial_config =
     [(SStr ''emit-custom-properties'', SBool True),
      (SStr ''emit-fallback-values'', SBool True),
      (SStr ''emit-fallback-vars'', SBool True)]"

text \<open>
  \<open>is-custom-prop\<close>: Sass's \<open>and\<close> does not evaluate \<open>map.has-key\<close> when the type is
  not \<open>map\<close>.
\<close>

fun is_custom_prop :: "sval \<Rightarrow> bool" where
  "is_custom_prop (SMap kvs) = (map_of kvs (SStr ''varname'') \<noteq> None)"
| "is_custom_prop _ = False"

definition varname_prefix :: string where
  "varname_prefix = ''mdc''"

text \<open>\<open>create-varname\<close>, on the text of a name: \<open>--#{$_varname-prefix}-#{$name}\<close>.\<close>

definition create_varname :: "string \<Rightarrow> sval" where
  "create_varname name = SStr (''--'' @ varname_prefix @ ''-'' @ name)"

text \<open>
  \<open>create\<close>: \<open>string.slice\<close> fails on a name that is not a string, so the name that
  reaches \<open>create-varname\<close> is one.
\<close>

definition create :: "sval \<Rightarrow> sval \<Rightarrow> error + sval" where
  "create varname fallback =
     (case string_slice varname 1 2 of
        Inl e \<Rightarrow> Inl e
      | Inr first_two \<Rightarrow>
          Inr (SMap [(SStr ''varname'',
                      (if first_two \<noteq> SStr ''--''
                       then (case varname of SStr name \<Rightarrow> create_varname name | _ \<Rightarrow> varname)
                       else varname)),
                     (SStr ''fallback'', fallback)]))"

definition get_varname :: "sval \<Rightarrow> error + sval" where
  "get_varname custom_prop = map_get custom_prop (SStr ''varname'')"

lemma size_map_of:
  "map_of kvs k = Some v \<Longrightarrow> size v < Suc (size_list (size_prod size size) kvs)"
  by (induction kvs) (auto split: if_splits)

lemma size_map_get: "map_get m k = Inr v \<Longrightarrow> v \<noteq> SNull \<Longrightarrow> size v < size m"
  by (cases "(m, k)" rule: map_get.cases)
     (auto simp: map_lookup_def split: option.splits dest: size_map_of)

function get_fallback :: "sval \<Rightarrow> bool \<Rightarrow> error + sval" where
  "get_fallback custom_prop shallow =
     (case map_get custom_prop (SStr ''fallback'') of
        Inl e \<Rightarrow> Inl e
      | Inr fallback \<Rightarrow>
          if is_custom_prop fallback \<and> \<not> shallow then get_fallback fallback False
          else Inr fallback)"
  by pat_completeness auto
termination
  by (relation "measure (\<lambda>(p, _). size p)") (auto dest: size_map_get)

declare get_fallback.simps [simp del]

lemma size_get_fallback_shallow:
  "get_fallback p True = Inr v \<Longrightarrow> v \<noteq> SNull \<Longrightarrow> size v < size p"
  by (auto simp: get_fallback.simps [of p True] split: sum.splits dest: size_map_get)

function set_fallback :: "sval \<Rightarrow> sval \<Rightarrow> bool \<Rightarrow> error + sval" where
  "set_fallback custom_prop new_fallback shallow =
     (case get_varname custom_prop of
        Inl e \<Rightarrow> Inl e
      | Inr varname \<Rightarrow>
          (case get_fallback custom_prop True of
             Inl e \<Rightarrow> Inl e
           | Inr first_fallback \<Rightarrow>
               if is_custom_prop first_fallback \<and> \<not> shallow then
                 (case set_fallback first_fallback new_fallback False of
                    Inl e \<Rightarrow> Inl e
                  | Inr new_fallback' \<Rightarrow> create varname new_fallback')
               else create varname new_fallback))"
  by pat_completeness auto
termination
  by (relation "measure (\<lambda>(p, _, _). size p)") (auto dest: size_get_fallback_shallow)

declare set_fallback.simps [simp del]

text \<open>
  \<open>create-var\<close> reads the global \<open>$_config\<close>, here the first argument. \<open>var(...)\<close> is
  a plain CSS function call, which fails on an argument that cannot be written as CSS.
\<close>

function create_var :: "(sval \<times> sval) list \<Rightarrow> sval \<Rightarrow> error + sval" where
  "create_var cfg custom_prop =
     (if \<not> truthy (map_lookup cfg (SStr ''emit-custom-properties'')) then
        get_fallback custom_prop False
      else
        (case get_varname custom_prop of
           Inl e \<Rightarrow> Inl e
         | Inr varname \<Rightarrow>
             (case get_fallback custom_prop True of
                Inl e \<Rightarrow> Inl e
              | Inr fallback \<Rightarrow>
                  if is_custom_prop fallback \<and> truthy (map_lookup cfg (SStr ''emit-fallback-vars''))
                  then
                    (case create_var cfg fallback of
                       Inl e \<Rightarrow> Inl e
                     | Inr inner \<Rightarrow> css_function_call ''var'' [varname, inner])
                  else if truthy fallback \<and> \<not> is_custom_prop fallback
                          \<and> truthy (map_lookup cfg (SStr ''emit-fallback-values''))
                  then css_function_call ''var'' [varname, fallback]
                  else css_function_call ''var'' [varname])))"
  by pat_completeness auto
termination
  by (relation "measure (\<lambda>(_, p). size p)") (auto dest: size_get_fallback_shallow)

declare create_var.simps [simp del]

definition get_declaration_value :: "(sval \<times> sval) list \<Rightarrow> sval \<Rightarrow> error + sval" where
  "get_declaration_value cfg custom_prop = create_var cfg custom_prop"

definition get_declaration_fallback :: "(sval \<times> sval) list \<Rightarrow> sval \<Rightarrow> error + sval" where
  "get_declaration_fallback cfg custom_prop =
     (if \<not> truthy (map_lookup cfg (SStr ''emit-custom-properties''))
         \<or> \<not> truthy (map_lookup cfg (SStr ''emit-fallback-values''))
      then Inr SNull
      else get_fallback custom_prop False)"

text \<open>
  The state of a compilation that the mixins touch: the module's global \<open>$_config\<close>
  and the includes of \<open>css.declaration\<close> so far, each with the arguments it was given.
\<close>

record css_decl =
  decl_property :: sval
  decl_value :: sval
  decl_fallback_value :: sval
  decl_gss :: sval
  decl_important :: sval

record state =
  config :: "(sval \<times> sval) list"
  emitted :: "css_decl list"

text \<open>
  Modelled from the spec: the mixin \<open>css.declaration\<close> lives in the module \<open>./css\<close>,
  whose source is not available. The spec describes it as emitting a CSS declaration
  (property and value, with optional fallback and annotation map) into the generated
  style sheet and names no failure of it, so it appends what it was included with.
  What it writes for a value that is \<open>null\<close> (an empty declaration, in the words of the
  comments on \<open>create-var\<close>) is decided in that module: \<open>emitted\<close> holds the include
  with its \<open>null\<close>.
\<close>

definition css_declaration ::
  "sval \<Rightarrow> sval \<Rightarrow> sval \<Rightarrow> sval \<Rightarrow> sval \<Rightarrow> state \<Rightarrow> state" where
  "css_declaration property val fallback_value gss important s =
     s\<lparr>emitted := emitted s @
        [\<lparr>decl_property = property, decl_value = val, decl_fallback_value = fallback_value,
          decl_gss = gss, decl_important = important\<rparr>]\<rparr>"

text \<open>
  The mixin \<open>declaration\<close>. Its \<open>@error\<close> interpolates \<open>$custom-prop\<close> into the
  message, so a value that cannot be written as CSS (a map without \<open>varname\<close>, the
  empty list) fails there, before the message is complete.
\<close>

definition declaration_mixin ::
  "sval \<Rightarrow> sval \<Rightarrow> sval \<Rightarrow> sval \<Rightarrow> state \<Rightarrow> error + state" where
  "declaration_mixin property custom_prop gss important s =
     (if truthy property then
        (if is_custom_prop property then
           (if truthy (map_lookup (config s) (SStr ''emit-custom-properties'')) then
              (case get_varname property of
                 Inl e \<Rightarrow> Inl e
               | Inr property' \<Rightarrow>
                   (case get_fallback property True of
                      Inl e \<Rightarrow> Inl e
                    | Inr val \<Rightarrow>
                        if is_custom_prop val then
                          (case create_var (config s) val of
                             Inl e \<Rightarrow> Inl e
                           | Inr val' \<Rightarrow>
                               Inr (css_declaration property' val' SNull gss important s))
                        else Inr (css_declaration property' val SNull gss important s)))
            else Inr (css_declaration property SNull SNull gss important s))
         else
           if \<not> is_custom_prop custom_prop then
             (if css_value custom_prop then Inl (InvalidCustomProperty custom_prop)
              else Inl (NotACssValue custom_prop))
           else
             (case get_declaration_value (config s) custom_prop of
                Inl e \<Rightarrow> Inl e
              | Inr val \<Rightarrow>
                  (case get_declaration_fallback (config s) custom_prop of
                     Inl e \<Rightarrow> Inl e
                   | Inr fallback_value \<Rightarrow>
                       Inr (css_declaration property val fallback_value gss important s))))
      else Inr s)"

text \<open>
  \<open>meta.keywords\<close> of the argument list: the keyword arguments as a map from their
  names to their values.
\<close>

definition meta_keywords :: "(string \<times> sval) list \<Rightarrow> (sval \<times> sval) list" where
  "meta_keywords args = map (\<lambda>(k, v). (SStr k, v)) args"

text \<open>The \<open>@each\<close> of \<open>configure\<close> that drops the keys whose value is \<open>null\<close>.\<close>

fun remove_null_loop ::
  "(sval \<times> sval) list \<Rightarrow> (sval \<times> sval) list \<Rightarrow> (sval \<times> sval) list" where
  "remove_null_loop [] cfg = cfg"
| "remove_null_loop ((key, val) # rest) cfg =
     remove_null_loop rest (if val = SNull then map_remove cfg key else cfg)"

text \<open>
  \<open>configure\<close>: the content block is what the including code passes, a computation on
  the state that may fail; \<open>None\<close> is an include without a block.
\<close>

definition configure ::
  "(string \<times> sval) list \<Rightarrow> (state \<Rightarrow> error + state) option \<Rightarrow> state \<Rightarrow> error + state" where
  "configure args content s =
     (case content of
        None \<Rightarrow> Inl ContentRequired
      | Some body \<Rightarrow>
          (let cfg = remove_null_loop (meta_keywords args) (meta_keywords args) in
           if length cfg = 0 then body s
           else
             (let previous = config s in
              case body (s\<lparr>config := map_merge (config s) cfg\<rparr>) of
                Inl e \<Rightarrow> Inl e
              | Inr s' \<Rightarrow> Inr (s'\<lparr>config := previous\<rparr>))))"

lemma configure_cong [fundef_cong]:
  assumes "\<And>t. b t = b' t"
  shows "configure args (Some b) s = configure args (Some b') s"
proof -
  from assms have "b = b'" by (rule ext)
  then show ?thesis by simp
qed

text \<open>
  \<open>$_config\<close> is private to the module, and \<open>configure\<close> is the only code that
  assigns it. So a content block acts on this state through the module's two mixins:
  it is a sequence of includes of \<open>declaration\<close> and of \<open>configure\<close>, each of the
  latter with a block of its own or none.
\<close>

datatype stmt =
    Include_declaration sval sval sval sval
  | Include_configure "(string \<times> sval) list" "stmt list option"

function exec_stmt :: "stmt \<Rightarrow> state \<Rightarrow> error + state"
  and exec_block :: "stmt list \<Rightarrow> state \<Rightarrow> error + state" where
  "exec_stmt (Include_declaration property custom_prop gss important) s =
     declaration_mixin property custom_prop gss important s"
| "exec_stmt (Include_configure args None) s = configure args None s"
| "exec_stmt (Include_configure args (Some body)) s =
     configure args (Some (\<lambda>t. exec_block body t)) s"
| "exec_block [] s = Inr s"
| "exec_block (c # cs) s =
     (case exec_stmt c s of Inl e \<Rightarrow> Inl e | Inr s' \<Rightarrow> exec_block cs s')"
  by pat_completeness auto
termination
  by (relation "measure (\<lambda>x. case x of Inl (c, _) \<Rightarrow> size c | Inr (cs, _) \<Rightarrow> size_list size cs)")
     auto

section \<open>Theme validation (mdc-theme/_validate.scss)\<close>

text \<open>
  Modelled from the spec: \<open>string-ext.has-suffix\<close> lives in the module
  \<open>./string-ext\<close>, whose source is not available. By its name, and by the spec's suffix exemption for
  token names, it tells whether a token's name ends with the suffix; the spec names no
  failure of it, so a token that is not a string has no such ending.
\<close>

fun has_suffix :: "sval \<Rightarrow> sval \<Rightarrow> bool" where
  "has_suffix (SStr s) (SStr sfx) = suffix sfx s"
| "has_suffix _ _ = False"

text \<open>
  \<open>$ignore-suffix: ('-type')\<close>: parentheses around one value build no list, so the
  variable is the string, which \<open>@each\<close> reads as a list of one element.
\<close>

definition ignore_suffix :: sval where
  "ignore_suffix = SStr ''-type''"

text \<open>The first \<open>@each\<close>: the tokens of the theme that the list of valid tokens lacks.\<close>

fun unsupported_loop :: "sval list \<Rightarrow> sval list \<Rightarrow> sval list \<Rightarrow> sval list" where
  "unsupported_loop valid_tokens [] unsupported_tokens = unsupported_tokens"
| "unsupported_loop valid_tokens (entry # rest) unsupported_tokens =
     (case destructure2 entry of
        (token, val) \<Rightarrow>
          unsupported_loop valid_tokens rest
            (if list_index valid_tokens token = SNull
             then unsupported_tokens @ [token]
             else unsupported_tokens))"

text \<open>The inner \<open>@each $suffix in $ignore-suffix\<close>, run when \<open>$missing\<close> is true.\<close>

fun suffix_loop :: "sval \<Rightarrow> sval list \<Rightarrow> bool \<Rightarrow> bool" where
  "suffix_loop token [] missing = missing"
| "suffix_loop token (sfx # rest) missing =
     suffix_loop token rest (if has_suffix token sfx then False else missing)"

text \<open>The \<open>@each $token in $valid-tokens\<close> under \<open>$require-all\<close>.\<close>

fun missing_loop :: "sval \<Rightarrow> sval list \<Rightarrow> sval list \<Rightarrow> error + sval list" where
  "missing_loop theme_map [] missing_tokens = Inr missing_tokens"
| "missing_loop theme_map (token # rest) missing_tokens =
     (case map_get theme_map token of
        Inl e \<Rightarrow> Inl e
      | Inr val \<Rightarrow>
          (let missing = (val = SNull);
               missing = (if missing then suffix_loop token (as_list ignore_suffix) missing
                          else missing)
           in missing_loop theme_map rest
                (if missing then missing_tokens @ [token] else missing_tokens)))"

definition validate_theme_tokens :: "sval list \<Rightarrow> sval \<Rightarrow> bool \<Rightarrow> error + sval" where
  "validate_theme_tokens valid_tokens theme_map require_all =
     (let unsupported_tokens = unsupported_loop valid_tokens (as_list theme_map) [] in
      case (if require_all then missing_loop theme_map valid_tokens [] else Inr []) of
        Inl e \<Rightarrow> Inl e
      | Inr missing_tokens \<Rightarrow>
          if length unsupported_tokens > 0 then Inl (InvalidTokens unsupported_tokens)
          else if length missing_tokens > 0 then Inl (MissingTokens missing_tokens)
          else Inr theme_map)"

definition theme_styles :: "sval \<Rightarrow> sval \<Rightarrow> bool \<Rightarrow> error + sval" where
  "theme_styles reference_theme theme_map require_all =
     (case map_keys reference_theme of
        Inl e \<Rightarrow> Inl e
      | Inr valid_tokens \<Rightarrow> validate_theme_tokens valid_tokens theme_map require_all)"

definition theme :: "sval \<Rightarrow> sval \<Rightarrow> error + sval" where
  "theme reference_theme theme_map =
     (case map_keys reference_theme of
        Inl e \<Rightarrow> Inl e
      | Inr valid_tokens \<Rightarrow> validate_theme_tokens valid_tokens theme_map False)"

section \<open>What the spec calls a fallback chain\<close>

text \<open>
  The spec's words: a custom-property record has a fallback that is another record (a
  linked chain) or a literal, and the chain ends in a value that is not a record or in
  \<open>null\<close>. \<open>fallback_chain p qs c\<close>: the fallback of \<open>p\<close> is the first record of
  \<open>qs\<close>, the fallback of each record of \<open>qs\<close> is the next one, and the fallback of the
  last record is \<open>c\<close>, which is not a record.
\<close>

fun fallback_chain :: "sval \<Rightarrow> sval list \<Rightarrow> sval \<Rightarrow> bool" where
  "fallback_chain p [] c =
     (is_custom_prop p \<and> map_get p (SStr ''fallback'') = Inr c \<and> \<not> is_custom_prop c)"
| "fallback_chain p (q # qs) c =
     (is_custom_prop p \<and> map_get p (SStr ''fallback'') = Inr q \<and> fallback_chain q qs c)"

text \<open>
  A record whose \<open>varname\<close> is a string.
\<close>

definition has_string_name :: "sval \<Rightarrow> bool" where
  "has_string_name p = (case get_varname p of Inr (SStr n) \<Rightarrow> True | _ \<Rightarrow> False)"

section \<open>Concrete inputs\<close>

text \<open>
  The chain \<open>A \<rightarrow> B \<rightarrow> C\<close> with \<open>C\<close> a literal, a record without a fallback, a record
  whose name lacks the leading \<open>--\<close>, a record whose fallback is a map that is not a
  record, and the record of the source's example \<open>create(--foo, teal)\<close>.
\<close>

definition prop_C :: sval where "prop_C = SStr ''teal''"
definition prop_B :: sval where
  "prop_B = SMap [(SStr ''varname'', SStr ''--b''), (SStr ''fallback'', prop_C)]"
definition prop_A :: sval where
  "prop_A = SMap [(SStr ''varname'', SStr ''--a''), (SStr ''fallback'', prop_B)]"

definition prop_without_fallback :: sval where
  "prop_without_fallback = SMap [(SStr ''varname'', SStr ''--x''), (SStr ''fallback'', SNull)]"

definition unprefixed_prop :: sval where
  "unprefixed_prop = SMap [(SStr ''varname'', SStr ''foo''), (SStr ''fallback'', SNull)]"

definition map_fallback_prop :: sval where
  "map_fallback_prop =
     SMap [(SStr ''varname'', SStr ''--x''), (SStr ''fallback'', SMap [(SStr ''a'', SNum 1)])]"

definition color_teal :: sval where
  "color_teal = SMap [(SStr ''varname'', SStr ''--foo''), (SStr ''fallback'', SStr ''teal'')]"

text \<open>
  Configurations: custom properties disabled, and what \<open>configure\<close> called with
  \<open>$emit-fallback-values: false\<close> merges into the initial one.
\<close>

definition custom_properties_disabled :: "(sval \<times> sval) list" where
  "custom_properties_disabled =
     map_merge initial_config [(SStr ''emit-custom-properties'', SBool False)]"

definition no_fallback_values :: "(string \<times> sval) list" where
  "no_fallback_values = [(''emit-fallback-values'', SBool False)]"

definition without_fallback_values :: "(sval \<times> sval) list" where
  "without_fallback_values =
     [(SStr ''emit-custom-properties'', SBool True),
      (SStr ''emit-fallback-values'', SBool False),
      (SStr ''emit-fallback-vars'', SBool True)]"

definition initial_state :: state where
  "initial_state = \<lparr>config = initial_config, emitted = []\<rparr>"

definition color_block :: "stmt list" where
  "color_block = [Include_declaration (SStr ''color'') color_teal (SList []) (SBool False)]"

text \<open>
  A reference theme, and themes with an unknown token and with a token missing.
\<close>

definition reference_theme :: sval where
  "reference_theme =
     SMap [(SStr ''container-color'', SStr ''white''),
           (SStr ''label-text-color'', SStr ''black''),
           (SStr ''label-text-type'', SStr ''500 14px Roboto'')]"


definition partial_theme :: sval where
  "partial_theme = SMap [(SStr ''container-color'', SStr ''ivory'')]"

section \<open>Properties of the character counter\<close>

lemma digit_value_digit_char: "d < 10 \<Longrightarrow> digit_value (digit_char d) = d"
  by (simp add: digit_value_def digit_char_def)

lemma is_digit_digit_char: "d < 10 \<Longrightarrow> is_digit (digit_char d)"
  by (simp add: is_digit_def digit_char_def)

lemma decimal_value_snoc:
  "decimal_value (cs @ [c]) = 10 * decimal_value cs + digit_value c"
  by (simp add: decimal_value_def)

lemma decimal_value_number_to_string: "decimal_value (number_to_string n) = n"
proof (induction n rule: number_to_string.induct)
  case (1 n)
  show ?case
  proof (cases "n < 10")
    case True
    then show ?thesis
      by (simp add: number_to_string.simps [of n] decimal_value_def digit_value_digit_char)
  next
    case False
    with 1 show ?thesis
      by (simp add: number_to_string.simps [of n] decimal_value_snoc digit_value_digit_char)
  qed
qed

lemma digits_number_to_string: "c \<in> set (number_to_string n) \<Longrightarrow> is_digit c"
proof (induction n rule: number_to_string.induct)
  case (1 n)
  then show ?case
    by (cases "n < 10") (auto simp: number_to_string.simps [of n] is_digit_digit_char)
qed

lemma number_to_string_inj:
  "number_to_string a = number_to_string b \<Longrightarrow> a = b"
  by (metis decimal_value_number_to_string)

lemma setCounterValue_recorded:
  "foundation_setCounterValue recording_adapter c m calls =
     calls @ [SetContent (number_to_string (min c m) @ '' / '' @ number_to_string m),
              SetCounterValue (min c m) m]"
  by (simp add: foundation_setCounterValue_def recording_adapter_def Let_def)

text \<open>
  C6. Every call \<open>setCounterValue(currentLength, maxLength)\<close> with lengths below
  \<open>2^53\<close> passes one string to \<open>adapter.setContent\<close>: the decimal numeral of
  \<open>min(currentLength, maxLength)\<close>, the separator of a space, a slash and a space, and
  the decimal numeral of \<open>maxLength\<close> (numerals that read back as these numbers). When
  \<open>currentLength > maxLength\<close> the current value shown is \<open>maxLength\<close>.
\<close>

theorem setCounterValue_content:
  assumes "safe_length currentLength" and "safe_length maxLength"
  shows "content_calls (foundation_setCounterValue recording_adapter currentLength maxLength []) =
     [number_to_string (min currentLength maxLength) @ '' / '' @ number_to_string maxLength]
   \<and> decimal_value (number_to_string (min currentLength maxLength)) = min currentLength maxLength
   \<and> decimal_value (number_to_string maxLength) = maxLength
   \<and> (maxLength < currentLength \<longrightarrow>
        content_calls (foundation_setCounterValue recording_adapter currentLength maxLength []) =
          [number_to_string maxLength @ '' / '' @ number_to_string maxLength])"
proof -
  have shown:
    "content_calls (foundation_setCounterValue recording_adapter currentLength maxLength []) =
       [number_to_string (min currentLength maxLength) @ '' / '' @ number_to_string maxLength]"
    by (simp add: setCounterValue_recorded content_calls_def)
  have "maxLength < currentLength \<Longrightarrow> min currentLength maxLength = maxLength"
    by simp
  with shown show ?thesis
    by (simp add: decimal_value_number_to_string)
qed

theorem setCounterValue_content_witness:
  "safe_length 15 \<and> safe_length 10 \<and> (10::nat) < 15
   \<and> content_calls (foundation_setCounterValue recording_adapter 15 10 []) = [''10 / 10'']"
proof -
  have numeral: "number_to_string 10 = ''10''"
    by code_simp
  have current: "safe_length 15" and maximum: "safe_length 10"
    by (simp_all add: safe_length_def)
  from setCounterValue_content [OF current maximum] current maximum show ?thesis
    by (simp add: numeral)
qed

text \<open>
  C9. Every call \<open>setCounterValue(currentLength, maxLength)\<close> forwards to
  \<open>adapter.setCounterValue\<close> the pair \<open>(min(currentLength, maxLength), maxLength)\<close>,
  not the original \<open>currentLength\<close> when that is larger; whatever the adapter, both
  callbacks get the clamped value, \<open>setContent\<close> first.
\<close>

theorem setCounterValue_forwards_clamped:
  "counter_calls (foundation_setCounterValue recording_adapter currentLength maxLength []) =
     [(min currentLength maxLength, maxLength)]
   \<and> (maxLength < currentLength \<longrightarrow>
        counter_calls (foundation_setCounterValue recording_adapter currentLength maxLength []) \<noteq>
          [(currentLength, maxLength)])
   \<and> foundation_setCounterValue adapter currentLength maxLength s =
       setCounterValue adapter (min currentLength maxLength) maxLength
         (setContent adapter
            (number_to_string (min currentLength maxLength) @ '' / '' @ number_to_string maxLength) s)"
proof -
  have forwarded:
    "counter_calls (foundation_setCounterValue recording_adapter currentLength maxLength []) =
       [(min currentLength maxLength, maxLength)]"
    by (simp add: setCounterValue_recorded counter_calls_def)
  have clamped: "maxLength < currentLength \<longrightarrow>
      counter_calls (foundation_setCounterValue recording_adapter currentLength maxLength []) \<noteq>
        [(currentLength, maxLength)]"
    by (simp add: forwarded)
  have both: "foundation_setCounterValue adapter currentLength maxLength s =
      setCounterValue adapter (min currentLength maxLength) maxLength
        (setContent adapter
           (number_to_string (min currentLength maxLength) @ '' / '' @ number_to_string maxLength) s)"
    by (simp add: foundation_setCounterValue_def Let_def)
  from forwarded clamped both show ?thesis
    by (intro conjI)
qed

theorem setCounterValue_forwards_clamped_witness:
  "(3::nat) < 7
   \<and> counter_calls (foundation_setCounterValue recording_adapter 7 3 []) = [(3, 3)]
   \<and> counter_calls (foundation_setCounterValue recording_adapter 2 3 []) = [(2, 3)]"
proof -
  note above = setCounterValue_forwards_clamped [of 7 3 recording_adapter "[]", THEN conjunct1]
  note below = setCounterValue_forwards_clamped [of 2 3 recording_adapter "[]", THEN conjunct1]
  from above below show ?thesis
    by simp
qed

section \<open>Properties of fallback chains\<close>

lemma fallback_chain_is_custom_prop: "fallback_chain p qs c \<Longrightarrow> is_custom_prop p"
  by (cases qs) simp_all

lemma fallback_chain_terminal: "fallback_chain p qs c \<Longrightarrow> \<not> is_custom_prop c"
  by (induction qs arbitrary: p) auto

lemma map_get_custom_prop: "is_custom_prop p \<Longrightarrow> \<exists>v. map_get p k = Inr v"
  by (cases p) simp_all

lemma get_fallback_shallow:
  "map_get p (SStr ''fallback'') = Inr f \<Longrightarrow> get_fallback p True = Inr f"
  by (simp add: get_fallback.simps [of p True])

lemma get_fallback_chain: "fallback_chain p qs c \<Longrightarrow> get_fallback p False = Inr c"
proof (induction qs arbitrary: p)
  case Nil
  then show ?case by (simp add: get_fallback.simps [of p False])
next
  case (Cons q qs)
  then have "is_custom_prop q" "get_fallback q False = Inr c"
    by (auto dest: fallback_chain_is_custom_prop)
  with Cons.prems show ?case by (simp add: get_fallback.simps [of p False])
qed

text \<open>
  Every custom-property record has a fallback chain: values are finite.
\<close>

lemma fallback_chain_exists: "is_custom_prop p \<Longrightarrow> \<exists>qs c. fallback_chain p qs c"
proof (induction p "False" rule: get_fallback.induct)
  case (1 p)
  from "1.prems" obtain f where f: "map_get p (SStr ''fallback'') = Inr f"
    using map_get_custom_prop by blast
  show ?case
  proof (cases "is_custom_prop f")
    case True
    with 1 f obtain qs c where "fallback_chain f qs c" by blast
    with f "1.prems" have "fallback_chain p (f # qs) c" by simp
    then show ?thesis by blast
  next
    case False
    with f "1.prems" have "fallback_chain p [] f" by simp
    then show ?thesis by blast
  qed
qed

lemma get_varname_custom_prop: "is_custom_prop p \<Longrightarrow> \<exists>v. get_varname p = Inr v"
  by (simp add: get_varname_def map_get_custom_prop)

lemma get_fallback_total: "is_custom_prop p \<Longrightarrow> \<exists>v. get_fallback p shallow = Inr v"
proof (cases shallow)
  case True
  assume "is_custom_prop p"
  then obtain f where "map_get p (SStr ''fallback'') = Inr f"
    using map_get_custom_prop by blast
  with True show ?thesis by (auto dest: get_fallback_shallow)
next
  case False
  assume "is_custom_prop p"
  then obtain qs c where "fallback_chain p qs c"
    using fallback_chain_exists by blast
  with False show ?thesis by (auto dest: get_fallback_chain)
qed

lemma create_chain_ABC:
  "create (SStr ''--b'') prop_C = Inr prop_B \<and> create (SStr ''--a'') prop_B = Inr prop_A"
  by (simp add: create_def prop_A_def prop_B_def)

lemma chain_ABC: "fallback_chain prop_A [prop_B] prop_C"
  by (simp add: prop_A_def prop_B_def prop_C_def map_lookup_def)

lemma is_custom_prop_A: "is_custom_prop prop_A"
  by (simp add: prop_A_def)

lemma is_custom_prop_without_fallback: "is_custom_prop prop_without_fallback"
  by (simp add: prop_without_fallback_def)

lemma names_AB: "list_all has_string_name [prop_A, prop_B]"
  by (simp add: has_string_name_def get_varname_def prop_A_def prop_B_def map_lookup_def)

lemma name_A: "get_varname prop_A = Inr (SStr ''--a'')"
  by (simp add: get_varname_def prop_A_def map_lookup_def)

lemma unprefixed_chain: "fallback_chain unprefixed_prop [] SNull"
  by (simp add: unprefixed_prop_def map_lookup_def)

text \<open>
  C1. For a record whose fallback chain is a linked sequence of records that ends in a
  value that is not a record (\<open>A \<rightarrow> B \<rightarrow> C\<close>, \<open>C\<close> a literal), \<open>get-fallback\<close> with
  the default flag returns the final value \<open>C\<close>, and with the shallow flag it returns
  the record's first fallback (\<open>B\<close>; the literal itself when the chain has no further
  record).
\<close>

theorem get_fallback_resolves_chain:
  "fallback_chain p qs c \<Longrightarrow>
     get_fallback p False = Inr c
     \<and> get_fallback p True = Inr (case qs of [] \<Rightarrow> c | q # _ \<Rightarrow> q)"
proof -
  assume chain: "fallback_chain p qs c"
  then have deep: "get_fallback p False = Inr c"
    by (rule get_fallback_chain)
  from chain have "map_get p (SStr ''fallback'') = Inr (case qs of [] \<Rightarrow> c | q # _ \<Rightarrow> q)"
    by (cases qs) simp_all
  then have "get_fallback p True = Inr (case qs of [] \<Rightarrow> c | q # _ \<Rightarrow> q)"
    by (rule get_fallback_shallow)
  with deep show ?thesis by simp
qed

theorem get_fallback_resolves_chain_witness:
  "fallback_chain prop_A [prop_B] prop_C
   \<and> get_fallback prop_A False = Inr prop_C
   \<and> get_fallback prop_A True = Inr prop_B"
  using get_fallback_resolves_chain [OF chain_ABC] chain_ABC by simp

section \<open>Disabled custom properties\<close>

lemma create_var_when_disabled:
  "\<not> truthy (map_lookup cfg (SStr ''emit-custom-properties'')) \<Longrightarrow>
     create_var cfg p = get_fallback p False"
  by (simp add: create_var.simps [of cfg p])

lemma disabled_is_disabled:
  "\<not> truthy (map_lookup custom_properties_disabled (SStr ''emit-custom-properties''))"
  by (simp add: custom_properties_disabled_def map_merge_def initial_config_def map_lookup_def)

text \<open>
  C2. When the switch \<open>emit-custom-properties\<close> is false, \<open>create-var\<close>, and so
  \<open>get-declaration-value\<close>, applied to a custom property record returns the final
  value of the record's fallback chain, which is not a record, instead of a \<open>var()\<close>
  call; that value is \<open>null\<close> when the record has no fallback.
\<close>

theorem create_var_disabled_returns_fallback:
  assumes disabled: "\<not> truthy (map_lookup cfg (SStr ''emit-custom-properties''))"
    and is_record: "is_custom_prop p"
  shows "\<exists>qs c. fallback_chain p qs c
           \<and> create_var cfg p = Inr c
           \<and> get_declaration_value cfg p = Inr c
           \<and> \<not> is_custom_prop c
           \<and> (map_get p (SStr ''fallback'') = Inr SNull \<longrightarrow> c = SNull)"
proof -
  from is_record obtain qs c where chain: "fallback_chain p qs c"
    using fallback_chain_exists by blast
  then have deep: "get_fallback p False = Inr c"
    by (rule get_fallback_chain)
  with disabled have var: "create_var cfg p = Inr c"
    by (simp add: create_var_when_disabled)
  then have decl: "get_declaration_value cfg p = Inr c"
    by (simp add: get_declaration_value_def)
  from chain have literal: "\<not> is_custom_prop c"
    by (rule fallback_chain_terminal)
  have none: "map_get p (SStr ''fallback'') = Inr SNull \<longrightarrow> c = SNull"
  proof
    assume "map_get p (SStr ''fallback'') = Inr SNull"
    then have "get_fallback p False = Inr SNull"
      by (simp add: get_fallback.simps [of p False])
    with deep show "c = SNull" by simp
  qed
  from chain var decl literal none show ?thesis by blast
qed

theorem create_var_disabled_returns_fallback_witness:
  "\<not> truthy (map_lookup custom_properties_disabled (SStr ''emit-custom-properties''))
   \<and> is_custom_prop prop_A
   \<and> create_var custom_properties_disabled prop_A = Inr (SStr ''teal'')
   \<and> get_declaration_value custom_properties_disabled prop_A = Inr (SStr ''teal'')
   \<and> is_custom_prop prop_without_fallback
   \<and> create_var custom_properties_disabled prop_without_fallback = Inr SNull"
proof -
  from create_var_disabled_returns_fallback [OF disabled_is_disabled is_custom_prop_A]
  obtain qs c where a: "fallback_chain prop_A qs c"
    "create_var custom_properties_disabled prop_A = Inr c"
    "get_declaration_value custom_properties_disabled prop_A = Inr c"
    by blast
  from a(1) have "get_fallback prop_A False = Inr c"
    by (rule get_fallback_chain)
  moreover from chain_ABC have "get_fallback prop_A False = Inr prop_C"
    by (rule get_fallback_chain)
  ultimately have "c = prop_C"
    by simp
  with a have teal: "create_var custom_properties_disabled prop_A = Inr (SStr ''teal'')"
    "get_declaration_value custom_properties_disabled prop_A = Inr (SStr ''teal'')"
    by (simp_all add: prop_C_def)
  from create_var_disabled_returns_fallback [OF disabled_is_disabled is_custom_prop_without_fallback]
  obtain qs' c' where b: "create_var custom_properties_disabled prop_without_fallback = Inr c'"
    "map_get prop_without_fallback (SStr ''fallback'') = Inr SNull \<longrightarrow> c' = SNull"
    by blast
  have "map_get prop_without_fallback (SStr ''fallback'') = Inr SNull"
    by (simp add: prop_without_fallback_def map_lookup_def)
  with b have null: "create_var custom_properties_disabled prop_without_fallback = Inr SNull"
    by simp
  from teal null disabled_is_disabled is_custom_prop_A is_custom_prop_without_fallback
  show ?thesis by simp
qed

section \<open>Setting a fallback\<close>

lemma create_string:
  "create (SStr n) f =
     Inr (SMap [(SStr ''varname'', if take 2 n = ''--'' then SStr n else create_varname n),
                (SStr ''fallback'', f)])"
  by (simp add: create_def)

lemma has_string_nameD: "has_string_name p \<Longrightarrow> \<exists>n. get_varname p = Inr (SStr n)"
  by (auto simp: has_string_name_def split: sum.splits sval.splits)

lemma get_fallback_created:
  "get_fallback (SMap [(SStr ''varname'', a), (SStr ''fallback'', f)]) False =
     (if is_custom_prop f then get_fallback f False else Inr f)"
  by (simp add: get_fallback.simps [of "SMap [(SStr ''varname'', a), (SStr ''fallback'', f)]" False]
        map_lookup_def)

lemma get_varname_created:
  "get_varname (SMap [(SStr ''varname'', a), (SStr ''fallback'', f)]) = Inr a"
  by (simp add: get_varname_def map_lookup_def)

lemma set_fallback_shallow:
  assumes "get_varname p = Inr (SStr n)" and "is_custom_prop p"
  shows "set_fallback p v True =
     Inr (SMap [(SStr ''varname'', if take 2 n = ''--'' then SStr n else create_varname n),
                (SStr ''fallback'', v)])"
proof -
  from assms(2) obtain f where "map_get p (SStr ''fallback'') = Inr f"
    using map_get_custom_prop by blast
  then have "get_fallback p True = Inr f"
    by (rule get_fallback_shallow)
  with assms(1) show ?thesis
    by (simp add: set_fallback.simps [of p v True] create_string)
qed

lemma set_fallback_deep:
  "fallback_chain p qs c \<Longrightarrow> list_all has_string_name (p # qs) \<Longrightarrow>
   get_varname p = Inr (SStr n) \<Longrightarrow>
     \<exists>f. set_fallback p v False =
            Inr (SMap [(SStr ''varname'', if take 2 n = ''--'' then SStr n else create_varname n),
                       (SStr ''fallback'', f)])
         \<and> (if is_custom_prop f then get_fallback f False else Inr f) =
             (if is_custom_prop v then get_fallback v False else Inr v)"
proof (induction qs arbitrary: p n)
  case Nil
  then have "get_fallback p True = Inr c" "\<not> is_custom_prop c"
    by (simp_all add: get_fallback_shallow)
  with Nil.prems(3) show ?case
    by (simp add: set_fallback.simps [of p v False] create_string)
next
  case (Cons q qs)
  from Cons.prems(1) have q: "get_fallback p True = Inr q" "is_custom_prop q" "fallback_chain q qs c"
    by (auto simp: get_fallback_shallow dest: fallback_chain_is_custom_prop)
  from Cons.prems(2) obtain m where m: "get_varname q = Inr (SStr m)"
    using has_string_nameD by auto
  from Cons.prems(2) have "list_all has_string_name (q # qs)"
    by simp
  from Cons.IH [OF q(3) this m] obtain f where
    f: "set_fallback q v False =
          Inr (SMap [(SStr ''varname'', if take 2 m = ''--'' then SStr m else create_varname m),
                     (SStr ''fallback'', f)])"
      "(if is_custom_prop f then get_fallback f False else Inr f) =
        (if is_custom_prop v then get_fallback v False else Inr v)"
    by blast
  let ?q' = "SMap [(SStr ''varname'', if take 2 m = ''--'' then SStr m else create_varname m),
                   (SStr ''fallback'', f)]"
  have "is_custom_prop ?q'" by simp
  moreover from f(2) have "get_fallback ?q' False =
      (if is_custom_prop v then get_fallback v False else Inr v)"
    by (simp only: get_fallback_created)
  moreover from q f(1) Cons.prems(3) have "set_fallback p v False =
      Inr (SMap [(SStr ''varname'', if take 2 n = ''--'' then SStr n else create_varname n),
                 (SStr ''fallback'', ?q')])"
    by (simp add: set_fallback.simps [of p v False] create_string)
  ultimately show ?case
    by (intro exI [of _ ?q']) simp
qed

text \<open>
  C10, as stated, fails: \<open>set-fallback\<close> rebuilds the record with \<open>create\<close>, which
  prefixes a name that does not begin with \<open>--\<close>. The record
  \<open>(varname: foo, fallback: null)\<close> becomes \<open>(varname: --mdc-foo, fallback: 1)\<close>.
\<close>

theorem set_fallback_renames_unprefixed:
  "fallback_chain unprefixed_prop [] SNull
   \<and> \<not> is_custom_prop (SNum 1)
   \<and> set_fallback unprefixed_prop (SNum 1) False =
       Inr (SMap [(SStr ''varname'', SStr ''--mdc-foo''), (SStr ''fallback'', SNum 1)])
   \<and> get_varname (SMap [(SStr ''varname'', SStr ''--mdc-foo''), (SStr ''fallback'', SNum 1)]) =
       Inr (SStr ''--mdc-foo'')
   \<and> get_varname unprefixed_prop = Inr (SStr ''foo'')"
proof -
  have name: "get_varname unprefixed_prop = Inr (SStr ''foo'')"
    by (simp add: unprefixed_prop_def get_varname_def map_lookup_def)
  have "get_fallback unprefixed_prop True = Inr SNull"
    by (simp add: unprefixed_prop_def get_fallback.simps map_lookup_def)
  with name have "set_fallback unprefixed_prop (SNum 1) False =
      Inr (SMap [(SStr ''varname'', SStr ''--mdc-foo''), (SStr ''fallback'', SNum 1)])"
    by (simp add: set_fallback.simps [of unprefixed_prop] create_string create_varname_def
          varname_prefix_def)
  with name unprefixed_chain show ?thesis
    by (simp add: get_varname_created)
qed

text \<open>
  C10, amended. For a record \<open>p\<close> with a fallback chain whose records all have string
  names, and a value \<open>v\<close> that is not a record, \<open>get-fallback(set-fallback(p, v))\<close> is
  \<open>v\<close>. With either value of the shallow flag, \<open>set-fallback\<close> keeps the name of
  \<open>p\<close> when it begins with \<open>--\<close>; a name \<open>n\<close> that does not is replaced by
  \<open>create-varname(n)\<close>.
\<close>

theorem set_fallback_get_fallback:
  assumes chain: "fallback_chain p qs c"
    and names: "list_all has_string_name (p # qs)"
    and name: "get_varname p = Inr (SStr n)"
    and literal: "\<not> is_custom_prop v"
  shows "(\<exists>p'. set_fallback p v False = Inr p' \<and> get_fallback p' False = Inr v)
       \<and> (take 2 n = ''--'' \<longrightarrow>
            (\<forall>shallow. \<exists>p'. set_fallback p v shallow = Inr p' \<and> get_varname p' = get_varname p))
       \<and> (take 2 n \<noteq> ''--'' \<longrightarrow>
            (\<forall>shallow. \<exists>p'. set_fallback p v shallow = Inr p'
                            \<and> get_varname p' = Inr (create_varname n)))"
proof -
  from set_fallback_deep [OF chain names name, of v] literal obtain f where
    deep: "set_fallback p v False =
            Inr (SMap [(SStr ''varname'', if take 2 n = ''--'' then SStr n else create_varname n),
                       (SStr ''fallback'', f)])"
    and f: "(if is_custom_prop f then get_fallback f False else Inr f) = Inr v"
    by auto
  from chain have "is_custom_prop p"
    by (rule fallback_chain_is_custom_prop)
  with name have shallow: "set_fallback p v True =
      Inr (SMap [(SStr ''varname'', if take 2 n = ''--'' then SStr n else create_varname n),
                 (SStr ''fallback'', v)])"
    by (rule set_fallback_shallow)
  from deep f have first: "\<exists>p'. set_fallback p v False = Inr p' \<and> get_fallback p' False = Inr v"
    by (simp add: get_fallback_created)
  have either: "\<exists>p'. set_fallback p v shallow = Inr p'
      \<and> get_varname p' = Inr (if take 2 n = ''--'' then SStr n else create_varname n)" for shallow
    using deep shallow by (cases shallow) (simp_all add: get_varname_created)
  have kept: "take 2 n = ''--'' \<longrightarrow>
      (\<forall>shallow. \<exists>p'. set_fallback p v shallow = Inr p' \<and> get_varname p' = get_varname p)"
    using either name by auto
  have renamed: "take 2 n \<noteq> ''--'' \<longrightarrow>
      (\<forall>shallow. \<exists>p'. set_fallback p v shallow = Inr p'
                      \<and> get_varname p' = Inr (create_varname n))"
    using either by auto
  from first kept renamed show ?thesis
    by (intro conjI)
qed

theorem set_fallback_get_fallback_witness:
  "fallback_chain prop_A [prop_B] prop_C
   \<and> list_all has_string_name [prop_A, prop_B]
   \<and> get_varname prop_A = Inr (SStr ''--a'')
   \<and> \<not> is_custom_prop (SNum 1)
   \<and> take 2 ''--a'' = ''--''
   \<and> (\<exists>p'. set_fallback prop_A (SNum 1) False = Inr p' \<and> get_fallback p' False = Inr (SNum 1))
   \<and> (\<exists>p'. set_fallback prop_A (SNum 1) True = Inr p' \<and> get_varname p' = Inr (SStr ''--a''))
   \<and> (\<exists>p'. set_fallback prop_A (SNum 1) False = Inr p' \<and> get_varname p' = Inr (SStr ''--a''))"
proof -
  have literal: "\<not> is_custom_prop (SNum 1)" by simp
  have dashes: "take 2 ''--a'' = ''--''" by simp
  note inst = set_fallback_get_fallback [OF chain_ABC names_AB name_A literal]
  from inst have one: "\<exists>p'. set_fallback prop_A (SNum 1) False = Inr p'
      \<and> get_fallback p' False = Inr (SNum 1)"
    by (rule conjunct1)
  from inst dashes have two: "\<exists>p'. set_fallback prop_A (SNum 1) shallow = Inr p'
      \<and> get_varname p' = Inr (SStr ''--a'')" for shallow
    by (simp add: name_A)
  from one two [of True] two [of False] chain_ABC names_AB name_A literal dashes
  show ?thesis by blast
qed

section \<open>The declaration mixin\<close>

lemma css_function_call_values:
  "list_all css_value args \<Longrightarrow> css_function_call name args = Inr (SCall name args)"
proof -
  assume "list_all css_value args"
  then have "find (\<lambda>a. \<not> css_value a) args = None"
    by (induction args) simp_all
  then show ?thesis
    by (simp add: css_function_call_def)
qed

text \<open>
  \<open>create-var\<close> succeeds on a record whose chain has string names and ends in a value
  that can be written as CSS; with custom properties enabled the result is a \<open>var()\<close>
  call.
\<close>

lemma create_var_chain:
  "fallback_chain p qs c \<Longrightarrow> list_all has_string_name (p # qs) \<Longrightarrow> css_value c \<Longrightarrow>
     \<exists>v. create_var cfg p = Inr v
        \<and> (truthy (map_lookup cfg (SStr ''emit-custom-properties'')) \<longrightarrow>
             (\<exists>args. v = SCall ''var'' args))"
proof (induction qs arbitrary: p)
  case Nil
  from Nil.prems(2) obtain n where n: "get_varname p = Inr (SStr n)"
    using has_string_nameD by auto
  from Nil.prems(1) have f: "get_fallback p True = Inr c" "\<not> is_custom_prop c"
    by (simp_all add: get_fallback_shallow)
  from Nil.prems(1) have d: "get_fallback p False = Inr c"
    by (rule get_fallback_chain)
  from n f d Nil.prems(3) show ?case
    by (simp add: create_var.simps [of cfg p] css_function_call_values)
next
  case (Cons q qs)
  from Cons.prems(2) obtain n where n: "get_varname p = Inr (SStr n)"
    using has_string_nameD by auto
  from Cons.prems(1) have q: "get_fallback p True = Inr q" "is_custom_prop q"
    "fallback_chain q qs c"
    by (auto simp: get_fallback_shallow dest: fallback_chain_is_custom_prop)
  from Cons.prems(1) have d: "get_fallback p False = Inr c"
    by (rule get_fallback_chain)
  from Cons.prems(2) have "list_all has_string_name (q # qs)"
    by simp
  from Cons.IH [OF q(3) this Cons.prems(3)] obtain inner where
    inner: "create_var cfg q = Inr inner"
      "truthy (map_lookup cfg (SStr ''emit-custom-properties'')) \<longrightarrow>
         (\<exists>args. inner = SCall ''var'' args)"
    by blast
  show ?case
  proof (cases "truthy (map_lookup cfg (SStr ''emit-custom-properties''))")
    case True
    with inner(2) have "css_value inner"
      by auto
    with True n q inner(1) show ?thesis
      by (simp add: create_var.simps [of cfg p] css_function_call_values)
  next
    case False
    with d show ?thesis
      by (simp add: create_var.simps [of cfg p])
  qed
qed

lemma get_declaration_fallback_total:
  "is_custom_prop p \<Longrightarrow> \<exists>v. get_declaration_fallback cfg p = Inr v"
  using get_fallback_total [of p False] by (auto simp: get_declaration_fallback_def)

lemma color_teal_value:
  "get_declaration_value initial_config color_teal = Inr (SCall ''var'' [SStr ''--foo'', SStr ''teal''])"
  by (simp add: get_declaration_value_def create_var.simps get_fallback.simps get_varname_def
        color_teal_def initial_config_def map_lookup_def css_function_call_def)

lemma color_teal_fallback:
  "get_declaration_fallback initial_config color_teal = Inr (SStr ''teal'')"
  by (simp add: get_declaration_fallback_def get_fallback.simps
        color_teal_def initial_config_def map_lookup_def)

lemma color_teal_chain: "fallback_chain color_teal [] (SStr ''teal'')"
  by (simp add: color_teal_def map_lookup_def)

lemma color_teal_name: "list_all has_string_name [color_teal]"
  by (simp add: has_string_name_def get_varname_def color_teal_def map_lookup_def)

lemma map_fallback_value:
  "get_declaration_value initial_config map_fallback_prop =
     Inl (NotACssValue (SMap [(SStr ''a'', SNum 1)]))"
  by (simp add: get_declaration_value_def create_var.simps get_fallback.simps get_varname_def
        map_fallback_prop_def initial_config_def map_lookup_def css_function_call_def)

text \<open>
  C8, as stated, fails: a map with a \<open>varname\<close> key is a custom property record for
  \<open>is-custom-prop\<close>, yet \<open>declaration(color, (varname: --x, fallback: (a: 1)))\<close> raises
  an error, in the \<open>var()\<close> call that \<open>create-var\<close> makes with the map \<open>(a: 1)\<close>.
\<close>

theorem declaration_mixin_fails_on_map_fallback:
  "truthy (SStr ''color'') \<and> \<not> is_custom_prop (SStr ''color'')
   \<and> is_custom_prop map_fallback_prop
   \<and> declaration_mixin (SStr ''color'') map_fallback_prop (SList []) (SBool False) initial_state =
       Inl (NotACssValue (SMap [(SStr ''a'', SNum 1)]))"
proof -
  have "is_custom_prop map_fallback_prop"
    by (simp add: map_fallback_prop_def)
  then show ?thesis
    by (simp add: declaration_mixin_def initial_state_def map_fallback_value)
qed

text \<open>
  C8, amended. When \<open>declaration\<close> is included with a property that counts as true (any
  property name does) and is not itself a custom property record: if \<open>$custom-prop\<close>
  is not a custom property record (a map with a \<open>varname\<close> key) it raises an error,
  the mixin's own when the value can be interpolated into its message; if it is a
  record whose fallback chain has string names and ends in \<open>null\<close> or in a value that
  can be written as CSS, no error is raised and \<open>css.declaration\<close> is included once,
  with the property, the record's declaration value and its declaration fallback. With
  custom properties enabled that value is a \<open>var()\<close> call.
\<close>

theorem declaration_mixin_rejects_malformed:
  assumes named: "truthy property" and plain: "\<not> is_custom_prop property"
  shows "(\<not> is_custom_prop custom_prop \<longrightarrow>
            declaration_mixin property custom_prop gss important s =
              Inl (if css_value custom_prop then InvalidCustomProperty custom_prop
                   else NotACssValue custom_prop))
       \<and> (fallback_chain custom_prop qs c \<and> list_all has_string_name (custom_prop # qs)
            \<and> css_value c \<longrightarrow>
            (\<exists>val fallback_value.
               get_declaration_value (config s) custom_prop = Inr val
             \<and> get_declaration_fallback (config s) custom_prop = Inr fallback_value
             \<and> declaration_mixin property custom_prop gss important s =
                 Inr (s\<lparr>emitted := emitted s @
                       [\<lparr>decl_property = property, decl_value = val,
                         decl_fallback_value = fallback_value, decl_gss = gss,
                         decl_important = important\<rparr>]\<rparr>)
             \<and> (truthy (map_lookup (config s) (SStr ''emit-custom-properties'')) \<longrightarrow>
                  (\<exists>args. val = SCall ''var'' args))))"
proof -
  have rejected: "declaration_mixin property custom_prop gss important s =
      Inl (if css_value custom_prop then InvalidCustomProperty custom_prop
           else NotACssValue custom_prop)"
    if "\<not> is_custom_prop custom_prop"
    using named plain that by (simp add: declaration_mixin_def)
  have accepted: "\<exists>val fallback_value.
       get_declaration_value (config s) custom_prop = Inr val
     \<and> get_declaration_fallback (config s) custom_prop = Inr fallback_value
     \<and> declaration_mixin property custom_prop gss important s =
         Inr (s\<lparr>emitted := emitted s @
               [\<lparr>decl_property = property, decl_value = val,
                 decl_fallback_value = fallback_value, decl_gss = gss,
                 decl_important = important\<rparr>]\<rparr>)
     \<and> (truthy (map_lookup (config s) (SStr ''emit-custom-properties'')) \<longrightarrow>
          (\<exists>args. val = SCall ''var'' args))"
    if chain: "fallback_chain custom_prop qs c"
      and names: "list_all has_string_name (custom_prop # qs)"
      and literal: "css_value c"
  proof -
    from chain have is_record: "is_custom_prop custom_prop"
      by (rule fallback_chain_is_custom_prop)
    from create_var_chain [OF chain names literal, of "config s"] obtain val where
      val: "get_declaration_value (config s) custom_prop = Inr val"
      and call: "truthy (map_lookup (config s) (SStr ''emit-custom-properties'')) \<longrightarrow>
        (\<exists>args. val = SCall ''var'' args)"
      by (auto simp: get_declaration_value_def)
    from is_record obtain fb where
      fb: "get_declaration_fallback (config s) custom_prop = Inr fb"
      using get_declaration_fallback_total by blast
    from named plain is_record val fb
    have "declaration_mixin property custom_prop gss important s =
        Inr (s\<lparr>emitted := emitted s @
              [\<lparr>decl_property = property, decl_value = val, decl_fallback_value = fb,
                decl_gss = gss, decl_important = important\<rparr>]\<rparr>)"
      by (simp add: declaration_mixin_def css_declaration_def)
    with val fb call show ?thesis
      by blast
  qed
  from rejected accepted show ?thesis
    by blast
qed

theorem declaration_mixin_rejects_malformed_witness:
  "truthy (SStr ''color'') \<and> \<not> is_custom_prop (SStr ''color'')
   \<and> \<not> is_custom_prop (SStr ''teal'')
   \<and> fallback_chain color_teal [] (SStr ''teal'') \<and> list_all has_string_name [color_teal]
   \<and> css_value (SStr ''teal'')
   \<and> declaration_mixin (SStr ''color'') (SStr ''teal'') (SList []) (SBool False) initial_state =
       Inl (InvalidCustomProperty (SStr ''teal''))
   \<and> declaration_mixin (SStr ''color'') color_teal (SList []) (SBool False) initial_state =
       Inr (initial_state\<lparr>emitted :=
             [\<lparr>decl_property = SStr ''color'',
               decl_value = SCall ''var'' [SStr ''--foo'', SStr ''teal''],
               decl_fallback_value = SStr ''teal'', decl_gss = SList [],
               decl_important = SBool False\<rparr>]\<rparr>)"
proof -
  have named: "truthy (SStr ''color'')" and plain: "\<not> is_custom_prop (SStr ''color'')"
    by simp_all
  have bad: "\<not> is_custom_prop (SStr ''teal'')" and literal: "css_value (SStr ''teal'')"
    by simp_all
  note inst = declaration_mixin_rejects_malformed [OF named plain]
  from inst [of "SStr ''teal''" "SList []" "SBool False" initial_state] bad
  have rejected:
    "declaration_mixin (SStr ''color'') (SStr ''teal'') (SList []) (SBool False) initial_state =
       Inl (InvalidCustomProperty (SStr ''teal''))"
    by simp
  from inst [of color_teal "SList []" "SBool False" initial_state "[]" "SStr ''teal''"]
    color_teal_chain color_teal_name literal
  have accepted:
    "declaration_mixin (SStr ''color'') color_teal (SList []) (SBool False) initial_state =
       Inr (initial_state\<lparr>emitted :=
             [\<lparr>decl_property = SStr ''color'',
               decl_value = SCall ''var'' [SStr ''--foo'', SStr ''teal''],
               decl_fallback_value = SStr ''teal'', decl_gss = SList [],
               decl_important = SBool False\<rparr>]\<rparr>)"
    by (auto simp: initial_state_def color_teal_value color_teal_fallback)
  from named plain bad color_teal_chain color_teal_name literal rejected accepted
  show ?thesis
    by (intro conjI)
qed

section \<open>The scope of configure\<close>

lemma css_declaration_config: "config (css_declaration p v f g i s) = config s"
  by (simp add: css_declaration_def)

lemma declaration_mixin_config:
  "declaration_mixin property custom_prop gss important s = Inr s' \<Longrightarrow> config s' = config s"
  by (auto simp: declaration_mixin_def css_declaration_config split: if_splits sum.splits)

text \<open>
  When \<open>configure\<close> gets a key with a value, it restores \<open>$_config\<close> whatever the
  content did; with none it leaves \<open>$_config\<close> as the content left it.
\<close>

lemma configure_resets_after_change:
  assumes "configure args (Some content) s = Inr s'"
    and "remove_null_loop (meta_keywords args) (meta_keywords args) \<noteq> []"
  shows "config s' = config s"
  using assms by (auto simp: configure_def Let_def split: sum.splits)

lemma configure_frame:
  assumes "\<And>t t'. content t = Inr t' \<Longrightarrow> config t' = config t"
    and "configure args (Some content) s = Inr s'"
  shows "config s' = config s"
  using assms by (auto simp: configure_def Let_def split: sum.splits if_splits)

lemma exec_config:
  "(\<forall>s'. exec_stmt c s = Inr s' \<longrightarrow> config s' = config s)"
  "(\<forall>s'. exec_block cs s = Inr s' \<longrightarrow> config s' = config s)"
proof (induction c s and cs s rule: exec_stmt_exec_block.induct)
  case (1 property custom_prop gss important s)
  then show ?case by (auto dest: declaration_mixin_config)
next
  case (2 args s)
  then show ?case by (simp add: configure_def)
next
  case (3 args body s)
  then show ?case by (auto intro: configure_frame [where content = "exec_block body"])
next
  case (4 s)
  then show ?case by simp
next
  case (5 c cs s)
  show ?case
  proof (intro allI impI)
    fix s'
    assume "exec_block (c # cs) s = Inr s'"
    then obtain b where b: "exec_stmt c s = Inr b" and rest: "exec_block cs b = Inr s'"
      by (cases "exec_stmt c s") simp_all
    from b "5.IH"(1) have "config b = config s"
      by blast
    moreover from b rest "5.IH"(2) have "config s' = config b"
      by blast
    ultimately show "config s' = config s"
      by simp
  qed
qed

lemma merge_no_fallback_values:
  "map_merge initial_config (meta_keywords no_fallback_values) = without_fallback_values"
  by (simp add: map_merge_def initial_config_def meta_keywords_def no_fallback_values_def
        without_fallback_values_def)

lemma keep_no_fallback_values:
  "remove_null_loop (meta_keywords no_fallback_values) (meta_keywords no_fallback_values) =
     meta_keywords no_fallback_values"
  by (simp add: meta_keywords_def no_fallback_values_def)

lemma color_teal_value_without:
  "get_declaration_value without_fallback_values color_teal = Inr (SCall ''var'' [SStr ''--foo''])"
  by (simp add: get_declaration_value_def create_var.simps get_fallback.simps get_varname_def
        color_teal_def without_fallback_values_def map_lookup_def css_function_call_def)

lemma color_teal_fallback_without:
  "get_declaration_fallback without_fallback_values color_teal = Inr SNull"
  by (simp add: get_declaration_fallback_def without_fallback_values_def map_lookup_def)

lemma color_block_without:
  "exec_block color_block \<lparr>config = without_fallback_values, emitted = []\<rparr> =
     Inr \<lparr>config = without_fallback_values, emitted =
           [\<lparr>decl_property = SStr ''color'', decl_value = SCall ''var'' [SStr ''--foo''],
             decl_fallback_value = SNull, decl_gss = SList [],
             decl_important = SBool False\<rparr>]\<rparr>"
proof -
  have "is_custom_prop color_teal"
    by (simp add: color_teal_def)
  then show ?thesis
    by (simp add: color_block_def declaration_mixin_def css_declaration_def
          color_teal_value_without color_teal_fallback_without)
qed

lemma color_block_configured:
  "configure no_fallback_values (Some (exec_block color_block)) initial_state =
     Inr (initial_state\<lparr>emitted :=
           [\<lparr>decl_property = SStr ''color'', decl_value = SCall ''var'' [SStr ''--foo''],
             decl_fallback_value = SNull, decl_gss = SList [],
             decl_important = SBool False\<rparr>]\<rparr>)"
proof -
  have "meta_keywords no_fallback_values \<noteq> []"
    by (simp add: meta_keywords_def no_fallback_values_def)
  then show ?thesis
    by (simp add: configure_def keep_no_fallback_values initial_state_def
          merge_no_fallback_values color_block_without)
qed

text \<open>
  C7. After an include of \<open>configure\<close> whose content block has finished, the global
  configuration map is what it was before the include: the keys given apply inside the
  block only (in the example the declaration is emitted without its fallback value) and
  are gone when it ends.
\<close>

theorem configure_restores_config:
  "configure args (Some (exec_block body)) s = Inr s' \<Longrightarrow> config s' = config s"
  using exec_config(2) by (blast intro: configure_frame [where content = "exec_block body"])

theorem configure_restores_config_witness:
  "configure no_fallback_values (Some (exec_block color_block)) initial_state =
     Inr (initial_state\<lparr>emitted :=
           [\<lparr>decl_property = SStr ''color'', decl_value = SCall ''var'' [SStr ''--foo''],
             decl_fallback_value = SNull, decl_gss = SList [],
             decl_important = SBool False\<rparr>]\<rparr>)
   \<and> config (initial_state\<lparr>emitted :=
           [\<lparr>decl_property = SStr ''color'', decl_value = SCall ''var'' [SStr ''--foo''],
             decl_fallback_value = SNull, decl_gss = SList [],
             decl_important = SBool False\<rparr>]\<rparr>) = config initial_state"
  using configure_restores_config [OF color_block_configured] color_block_configured
  by (intro conjI)

section \<open>Theme validation\<close>

lemma list_index_from_null: "list_index_from i xs v = SNull \<longleftrightarrow> v \<notin> set xs"
  by (induction xs arbitrary: i) auto

lemma list_index_null: "list_index xs v = SNull \<longleftrightarrow> v \<notin> set xs"
  by (simp add: list_index_def list_index_from_null)

lemma destructure2_entry: "destructure2 (SList [k, v]) = (k, v)"
  by (simp add: destructure2_def)

lemma unsupported_loop_entries:
  "unsupported_loop valid (map (\<lambda>(k, v). SList [k, v]) kvs) acc =
     acc @ [k \<leftarrow> map fst kvs. k \<notin> set valid]"
  by (induction kvs arbitrary: acc)
     (auto simp: destructure2_entry list_index_null)

lemma suffix_loop_ignore:
  "suffix_loop token (as_list ignore_suffix) True = (\<not> has_suffix token (SStr ''-type''))"
  by (simp add: ignore_suffix_def)

lemma missing_loop_map:
  "missing_loop (SMap kvs) valid acc =
     Inr (acc @ [t \<leftarrow> valid. map_lookup kvs t = SNull \<and> \<not> has_suffix t (SStr ''-type'')])"
proof (induction valid arbitrary: acc)
  case Nil
  then show ?case by simp
next
  case (Cons t valid)
  show ?case
  proof (cases "map_lookup kvs t = SNull")
    case True
    then show ?thesis
      by (simp add: Cons.IH suffix_loop_ignore Let_def)
  next
    case False
    then show ?thesis
      by (simp add: Cons.IH Let_def)
  qed
qed

text \<open>
  What the validator returns on a theme that is a map: the unsupported tokens first,
  then, when all are required, the missing ones.
\<close>

lemma validate_theme_tokens_map:
  "validate_theme_tokens valid (SMap kvs) require_all =
     (if [k \<leftarrow> map fst kvs. k \<notin> set valid] \<noteq> []
      then Inl (InvalidTokens [k \<leftarrow> map fst kvs. k \<notin> set valid])
      else if require_all
              \<and> [t \<leftarrow> valid. map_lookup kvs t = SNull \<and> \<not> has_suffix t (SStr ''-type'')] \<noteq> []
      then Inl (MissingTokens
                  [t \<leftarrow> valid. map_lookup kvs t = SNull \<and> \<not> has_suffix t (SStr ''-type'')])
      else Inr (SMap kvs))"
proof -
  define u where "u = [k \<leftarrow> map fst kvs. k \<notin> set valid]"
  define m where
    "m = [t \<leftarrow> valid. map_lookup kvs t = SNull \<and> \<not> has_suffix t (SStr ''-type'')]"
  have first: "unsupported_loop valid (map (\<lambda>(k, v). SList [k, v]) kvs) [] = u"
    unfolding u_def using unsupported_loop_entries [of valid kvs "[]"] by simp
  have second: "missing_loop (SMap kvs) valid [] = Inr m"
    unfolding m_def by (simp add: missing_loop_map)
  have "validate_theme_tokens valid (SMap kvs) require_all =
     (if u \<noteq> [] then Inl (InvalidTokens u)
      else if require_all \<and> m \<noteq> [] then Inl (MissingTokens m)
      else Inr (SMap kvs))"
    by (simp add: validate_theme_tokens_def first second Let_def)
  then show ?thesis
    unfolding u_def m_def .
qed

lemma filter_empty_subset: "[k \<leftarrow> xs. k \<notin> set ys] = [] \<longleftrightarrow> set xs \<subseteq> set ys"
  by (auto simp: filter_empty_conv)

text \<open>
  C3. When every key of the theme map is a key of the reference theme and, if all
  tokens are required, every reference key has a value other than \<open>null\<close> in the theme,
  validation succeeds and returns the theme map as it was given.
\<close>

theorem theme_styles_accepts:
  assumes allowed: "set (map fst theme_entries) \<subseteq> set (map fst reference_entries)"
    and present: "require_all \<Longrightarrow>
      \<forall>k \<in> set (map fst reference_entries). \<exists>v. map_of theme_entries k = Some v \<and> v \<noteq> SNull"
  shows "theme_styles (SMap reference_entries) (SMap theme_entries) require_all =
           Inr (SMap theme_entries)
       \<and> theme (SMap reference_entries) (SMap theme_entries) = Inr (SMap theme_entries)"
proof -
  let ?valid = "map fst reference_entries"
  from allowed have none: "[k \<leftarrow> map fst theme_entries. k \<notin> set ?valid] = []"
    by (simp only: filter_empty_subset)
  have "[t \<leftarrow> ?valid. map_lookup theme_entries t = SNull \<and> \<not> has_suffix t (SStr ''-type'')] = []"
    if require_all
  proof -
    from present [OF that] have "\<forall>t \<in> set ?valid. map_lookup theme_entries t \<noteq> SNull"
      by (auto simp: map_lookup_def)
    then show ?thesis
      by (auto simp: filter_empty_conv)
  qed
  with none show ?thesis
    by (auto simp: theme_styles_def theme_def validate_theme_tokens_map)
qed

theorem theme_styles_accepts_witness:
  "theme_styles reference_theme
     (SMap [(SStr ''label-text-type'', SStr ''400 12px Roboto''),
            (SStr ''label-text-color'', SStr ''navy''),
            (SStr ''container-color'', SStr ''ivory'')]) True =
     Inr (SMap [(SStr ''label-text-type'', SStr ''400 12px Roboto''),
                (SStr ''label-text-color'', SStr ''navy''),
                (SStr ''container-color'', SStr ''ivory'')])
   \<and> theme_styles reference_theme partial_theme False = Inr partial_theme"
proof -
  have one: "theme_styles reference_theme
     (SMap [(SStr ''label-text-type'', SStr ''400 12px Roboto''),
            (SStr ''label-text-color'', SStr ''navy''),
            (SStr ''container-color'', SStr ''ivory'')]) True =
     Inr (SMap [(SStr ''label-text-type'', SStr ''400 12px Roboto''),
                (SStr ''label-text-color'', SStr ''navy''),
                (SStr ''container-color'', SStr ''ivory'')])"
    unfolding reference_theme_def
    by (rule theme_styles_accepts [THEN conjunct1]) simp_all
  have two: "theme_styles reference_theme partial_theme False = Inr partial_theme"
    unfolding reference_theme_def partial_theme_def
    by (rule theme_styles_accepts [THEN conjunct1]) simp_all
  from one two show ?thesis
    by (intro conjI)
qed






end
